theory Spec2Isabelle
  imports Complex_Main
begin

section \<open>Retirement and savings projection (ExampleFinCalc.py)\<close>

text \<open>
  The script reads its inputs from widgets, resolves the income schedule into a
  dictionary from month to income, and runs one loop over the months
  \<open>1 .. years * 12\<close> that updates the loan and the invested balance and appends one
  row per month.

  Numbers. The widgets hand over Python integers (balance, payment, incomes, inheritance
  amounts, years); they are \<^typ>\<open>int\<close> here. Everything the loop computes with the
  monthly rates is a Python float; it is modelled by \<^typ>\<open>real\<close>, that is, by exact
  arithmetic: rounding errors of binary floating point, overflow and NaN are not modelled.
  Integers enter real arithmetic through \<^term>\<open>real_of_int\<close>, as Python converts them.
\<close>

subsection \<open>Inputs\<close>

text \<open>The dictionaries appended to \<open>income_schedule\<close> (line 44) and \<open>inheritances\<close> (line 32).\<close>

record income_period =
  start_year :: int
  end_year :: int
  monthly_income :: int

record inheritance =
  inh_month :: int
  inh_amount :: int

record inputs =
  loan_balance :: int
  loan_payment :: int
  savings_rate :: real
  years :: int
  retirement_year :: int
  inheritances :: "inheritance list"
  income_schedule :: "income_period list"

subsection \<open>Model parameters (lines 50 to 55)\<close>

definition loan_interest_annual :: real where
  "loan_interest_annual = 5 / 100"

definition investment_return_annual :: real where
  "investment_return_annual = 7 / 100"

definition loan_interest_monthly :: real where
  "loan_interest_monthly = loan_interest_annual / 12"

definition investment_return_monthly :: real where
  "investment_return_monthly = investment_return_annual / 12"

definition months :: "inputs \<Rightarrow> int" where
  "months inp = years inp * 12"

definition retirement_month :: "inputs \<Rightarrow> int" where
  "retirement_month inp = retirement_year inp * 12"

subsection \<open>Income mapping by month (lines 61 to 67)\<close>

text \<open>
  The inner loop runs over \<open>range(start_month, end_month + 1)\<close>, the list
  \<^term>\<open>[start_month..end_month]\<close> (empty when the end lies before the start), and stores
  the period's income under every month up to the retirement month.
\<close>

definition set_income :: "int \<Rightarrow> income_period \<Rightarrow> int \<Rightarrow> (int \<rightharpoonup> int) \<Rightarrow> (int \<rightharpoonup> int)" where
  "set_income rm period month d =
     (if month \<le> rm then d(month \<mapsto> monthly_income period) else d)"

definition add_period :: "int \<Rightarrow> income_period \<Rightarrow> (int \<rightharpoonup> int) \<Rightarrow> (int \<rightharpoonup> int)" where
  "add_period rm period d =
     (let start_month = (start_year period - 1) * 12 + 1;
          end_month = end_year period * 12
      in fold (set_income rm period) [start_month..end_month] d)"

definition income_by_month :: "income_period list \<Rightarrow> int \<Rightarrow> (int \<rightharpoonup> int)" where
  "income_by_month schedule rm = fold (add_period rm) schedule Map.empty"

text \<open>
  Following the spec's words: a period covers the months from \<open>(start_year-1)*12+1\<close> to
  \<open>end_year*12\<close> inclusive.
\<close>

definition covers :: "income_period \<Rightarrow> int \<Rightarrow> bool" where
  "covers p m \<longleftrightarrow> (start_year p - 1) * 12 + 1 \<le> m \<and> m \<le> end_year p * 12"

subsection \<open>Rounding for display\<close>

text \<open>
  Python's \<open>round(x, 2)\<close>: the nearest multiple of one hundredth, a tie going to the even
  neighbour.
\<close>

definition round_half_even :: "real \<Rightarrow> int" where
  "round_half_even y =
     (let f = \<lfloor>y\<rfloor>; d = y - of_int f
      in if d < 1 / 2 then f else if 1 / 2 < d then f + 1
         else if even f then f else f + 1)"

definition round2 :: "real \<Rightarrow> real" where
  "round2 x = of_int (round_half_even (x * 100)) / 100"

subsection \<open>Simulation loop (lines 73 to 115)\<close>

text \<open>The dictionary appended to \<open>rows\<close> every month.\<close>

record month_record =
  Year :: int
  Month :: int
  Income :: int
  LoanBalance :: real
  LoanPayment :: real
  RemainingIncome :: real
  SavedThisMonth :: real
  TotalInvested :: real
  Inheritance :: int

text \<open>
  The values of the loop body's variables in one iteration, before rounding:
  \<open>v_loan_accrued\<close> is \<open>loan\<close> after line 83, \<open>v_loan\<close> is \<open>loan\<close> after line 87.
\<close>

record month_vars =
  v_month :: int
  v_year :: int
  v_current_income :: int
  v_loan_accrued :: real
  v_loan_payment_actual :: real
  v_loan :: real
  v_leftover :: real
  v_savings_contrib :: real
  v_inheritance_this_month :: int
  v_invested :: real

text \<open>
  The state the loop carries from month to month. \<open>trace\<close> is auxiliary: it keeps the
  unrounded variables of every iteration, in order, and nothing reads it.
\<close>

record sim_state =
  loan :: real
  invested :: real
  rows :: "month_record list"
  loan_paid_off_month :: "int option"
  trace :: "month_vars list"

definition initial_state :: "inputs \<Rightarrow> sim_state" where
  "initial_state inp =
     \<lparr>loan = of_int (loan_balance inp), invested = 0, rows = [],
      loan_paid_off_month = None, trace = []\<rparr>"

text \<open>Lines 79 to 103: one iteration's variables, from the state before it.\<close>

definition body_vars :: "inputs \<Rightarrow> (int \<rightharpoonup> int) \<Rightarrow> int \<Rightarrow> sim_state \<Rightarrow> month_vars" where
  "body_vars inp ibm month s =
     (let year = (month - 1) div 12 + 1;
          current_income = (case ibm month of None \<Rightarrow> 0 | Some v \<Rightarrow> v);
          loan1 = loan s + loan s * loan_interest_monthly;
          loan_payment_actual = min loan1 (of_int (loan_payment inp));
          loan2 = loan1 - loan_payment_actual;
          leftover = of_int current_income - loan_payment_actual;
          savings_contrib = (if loan2 \<le> 0 then leftover * savings_rate inp else 0);
          inheritance_this_month =
            sum_list (map inh_amount
              (filter (\<lambda>inh. inh_month inh = month) (inheritances inp)));
          invested1 = invested s * (1 + investment_return_monthly) + savings_contrib
                      + of_int inheritance_this_month
      in \<lparr>v_month = month, v_year = year, v_current_income = current_income,
          v_loan_accrued = loan1, v_loan_payment_actual = loan_payment_actual,
          v_loan = loan2, v_leftover = leftover, v_savings_contrib = savings_contrib,
          v_inheritance_this_month = inheritance_this_month, v_invested = invested1\<rparr>)"

text \<open>Lines 105 to 115: the row appended.\<close>

definition emit :: "month_vars \<Rightarrow> month_record" where
  "emit v =
     \<lparr>Year = v_year v, Month = v_month v, Income = v_current_income v,
      LoanBalance = round2 (max (v_loan v) 0),
      LoanPayment = round2 (v_loan_payment_actual v),
      RemainingIncome = round2 (v_leftover v),
      SavedThisMonth = round2 (v_savings_contrib v),
      TotalInvested = round2 (v_invested v),
      Inheritance = v_inheritance_this_month v\<rparr>"

text \<open>One iteration of the loop; lines 90 and 91 record the payoff month.\<close>

definition sim_step :: "inputs \<Rightarrow> (int \<rightharpoonup> int) \<Rightarrow> int \<Rightarrow> sim_state \<Rightarrow> sim_state" where
  "sim_step inp ibm month s =
     (let v = body_vars inp ibm month s
      in \<lparr>loan = v_loan v, invested = v_invested v, rows = rows s @ [emit v],
          loan_paid_off_month =
            (if v_loan v \<le> 0 \<and> loan_paid_off_month s = None then Some month
             else loan_paid_off_month s),
          trace = trace s @ [v]\<rparr>)"

text \<open>The dictionary \<open>income_by_month\<close> as the loop finds it (built by lines 61 to 67).\<close>

definition income_dict :: "inputs \<Rightarrow> (int \<rightharpoonup> int)" where
  "income_dict inp = income_by_month (income_schedule inp) (retirement_month inp)"

text \<open>The loop over the first \<open>n\<close> months, and the whole run.\<close>

definition run_months :: "inputs \<Rightarrow> int \<Rightarrow> sim_state" where
  "run_months inp n = fold (sim_step inp (income_dict inp)) [1..n] (initial_state inp)"

definition simulate :: "inputs \<Rightarrow> sim_state" where
  "simulate inp = run_months inp (months inp)"

text \<open>The variables of month \<open>k\<close>'s iteration: the body run on the state after \<open>k - 1\<close> months.\<close>

definition vars_at :: "inputs \<Rightarrow> int \<Rightarrow> month_vars" where
  "vars_at inp k = body_vars inp (income_dict inp) k (run_months inp (k - 1))"

subsection \<open>Example inputs\<close>

text \<open>
  The values the widgets start with: a loan of 20000 paid at 500 a month, a savings rate of
  20 percent, 20 years with retirement in year 20 (\<open>min(30, years)\<close>), one inheritance of
  50000 in year 10, and three income periods, each from year 1 to year 3 at 4000 a month.
\<close>

definition default_inputs :: inputs where
  "default_inputs =
     \<lparr>loan_balance = 20000, loan_payment = 500, savings_rate = 20 / 100, years = 20,
      retirement_year = 20,
      inheritances = [\<lparr>inh_month = 10 * 12, inh_amount = 50000\<rparr>],
      income_schedule =
        [\<lparr>start_year = 1, end_year = 3, monthly_income = 4000\<rparr>,
         \<lparr>start_year = 1, end_year = 3, monthly_income = 4000\<rparr>,
         \<lparr>start_year = 1, end_year = 3, monthly_income = 4000\<rparr>]\<rparr>"

text \<open>
  The spec's scenarios: no income and no saving over 5 years, and two inheritances in
  month 24.
\<close>

definition no_income_inputs :: inputs where
  "no_income_inputs =
     \<lparr>loan_balance = 20000, loan_payment = 500, savings_rate = 0, years = 5,
      retirement_year = 5, inheritances = [],
      income_schedule = [\<lparr>start_year = 1, end_year = 5, monthly_income = 0\<rparr>]\<rparr>"

definition two_inheritances_inputs :: inputs where
  "two_inheritances_inputs =
     default_inputs\<lparr>inheritances :=
       [\<lparr>inh_month = 2 * 12, inh_amount = 1000\<rparr>, \<lparr>inh_month = 2 * 12, inh_amount = 2500\<rparr>]\<rparr>"

text \<open>
  The loan widgets set no lower bound: a negative balance (an overpaid loan) and a negative
  payment can be entered.
\<close>

definition negative_payment_inputs :: inputs where
  "negative_payment_inputs =
     \<lparr>loan_balance = - 100, loan_payment = - 50, savings_rate = 20 / 100, years = 5,
      retirement_year = 5, inheritances = [],
      income_schedule = [\<lparr>start_year = 1, end_year = 5, monthly_income = 4000\<rparr>]\<rparr>"

text \<open>
  An income period over year 1 at 4000 a month, followed by a second period over years 1
  and 2 that overlaps it.
\<close>

definition year_one_schedule :: "income_period list" where
  "year_one_schedule =
     [\<lparr>start_year = 1, end_year = 1, monthly_income = 4000\<rparr>,
      \<lparr>start_year = 1, end_year = 2, monthly_income = 3000\<rparr>]"

section \<open>The income mapping\<close>

lemma fold_set_income:
  "fold (set_income rm p) ks d m =
     (if m \<in> set ks \<and> m \<le> rm then Some (monthly_income p) else d m)"
  by (induction ks arbitrary: d) (auto simp: set_income_def)

lemma add_period_apply:
  "add_period rm p d m = (if covers p m \<and> m \<le> rm then Some (monthly_income p) else d m)"
  by (simp add: add_period_def fold_set_income covers_def)

lemma income_by_month_snoc:
  "income_by_month (ps @ [p]) rm = add_period rm p (income_by_month ps rm)"
  by (simp add: income_by_month_def)

lemma income_by_month_Nil: "income_by_month [] rm = Map.empty"
  by (simp add: income_by_month_def)

lemma income_by_month_last:
  "income_by_month ps rm m = Some v \<longleftrightarrow>
     m \<le> rm \<and> (\<exists>i<length ps. covers (ps ! i) m \<and>
        (\<forall>j. i < j \<and> j < length ps \<longrightarrow> \<not> covers (ps ! j) m) \<and> v = monthly_income (ps ! i))"
proof (induction ps arbitrary: v rule: rev_induct)
  case Nil
  show ?case by (simp add: income_by_month_Nil)
next
  case (snoc p ps)
  let ?qs = "ps @ [p]"
  show ?case
  proof (cases "covers p m \<and> m \<le> rm")
    case True
    have last: "i = length ps"
      if "i < length ?qs" "\<forall>j. i < j \<and> j < length ?qs \<longrightarrow> \<not> covers (?qs ! j) m" for i
    proof (rule ccontr)
      assume "i \<noteq> length ps"
      with that(1) have "i < length ps \<and> length ps < length ?qs" by simp
      with that(2) have "\<not> covers (?qs ! length ps) m" by blast
      with True show False by simp
    qed
    have "income_by_month ?qs rm m = Some (monthly_income p)"
      using True by (simp add: income_by_month_snoc add_period_apply)
    moreover have "(\<exists>i<length ?qs. covers (?qs ! i) m \<and>
        (\<forall>j. i < j \<and> j < length ?qs \<longrightarrow> \<not> covers (?qs ! j) m) \<and> v = monthly_income (?qs ! i))
        \<longleftrightarrow> v = monthly_income p" (is "?L \<longleftrightarrow> ?R")
    proof
      assume ?L
      then obtain i where i: "i < length ?qs"
        "\<forall>j. i < j \<and> j < length ?qs \<longrightarrow> \<not> covers (?qs ! j) m" "v = monthly_income (?qs ! i)"
        by blast
      from last[OF i(1,2)] i(3) show ?R by simp
    next
      assume ?R
      with True have "length ps < length ?qs \<and> covers (?qs ! length ps) m \<and>
        (\<forall>j. length ps < j \<and> j < length ?qs \<longrightarrow> \<not> covers (?qs ! j) m) \<and>
        v = monthly_income (?qs ! length ps)" by auto
      then show ?L by blast
    qed
    ultimately show ?thesis using True by auto
  next
    case False
    have 1: "income_by_month ?qs rm m = income_by_month ps rm m"
      using False by (auto simp add: income_by_month_snoc add_period_apply)
    have 2: "(\<exists>i<length ?qs. covers (?qs ! i) m \<and>
        (\<forall>j. i < j \<and> j < length ?qs \<longrightarrow> \<not> covers (?qs ! j) m) \<and> v = monthly_income (?qs ! i))
      \<longleftrightarrow> (\<exists>i<length ps. covers (ps ! i) m \<and>
        (\<forall>j. i < j \<and> j < length ps \<longrightarrow> \<not> covers (ps ! j) m) \<and> v = monthly_income (ps ! i))"
      if "\<not> covers p m"
      using that by (auto simp: nth_append less_Suc_eq)
    show ?thesis
    proof (cases "m \<le> rm")
      case True
      with False have "\<not> covers p m" by simp
      from 2[OF this] show ?thesis unfolding 1 snoc.IH by simp
    next
      case False
      then show ?thesis unfolding 1 snoc.IH by simp
    qed
  qed
qed

lemma income_by_month_None:
  "income_by_month ps rm m = None \<longleftrightarrow> rm < m \<or> (\<forall>p\<in>set ps. \<not> covers p m)"
proof (induction ps rule: rev_induct)
  case Nil
  show ?case by (simp add: income_by_month_Nil)
next
  case (snoc p ps)
  then show ?case by (auto simp: income_by_month_snoc add_period_apply)
qed

section \<open>Unrolling the simulation loop\<close>

lemma run_months_nonpos: "n \<le> 0 \<Longrightarrow> run_months inp n = initial_state inp"
  by (simp add: run_months_def)

lemma run_months_step:
  "1 \<le> n \<Longrightarrow> run_months inp n = sim_step inp (income_dict inp) n (run_months inp (n - 1))"
  by (simp add: run_months_def upto_rec2)

lemma trace_step: "trace (sim_step inp d k s) = trace s @ [body_vars inp d k s]"
  by (simp add: sim_step_def Let_def)

lemma rows_step: "rows (sim_step inp d k s) = rows s @ [emit (body_vars inp d k s)]"
  by (simp add: sim_step_def Let_def)

lemma loan_step: "loan (sim_step inp d k s) = v_loan (body_vars inp d k s)"
  by (simp add: sim_step_def Let_def)

lemma invested_step: "invested (sim_step inp d k s) = v_invested (body_vars inp d k s)"
  by (simp add: sim_step_def Let_def)

lemma paid_step:
  "loan_paid_off_month (sim_step inp d k s) =
     (if v_loan (body_vars inp d k s) \<le> 0 \<and> loan_paid_off_month s = None then Some k
      else loan_paid_off_month s)"
  by (simp add: sim_step_def Let_def)

lemma trace_run_months: "trace (run_months inp n) = map (vars_at inp) [1..n]"
proof (cases "0 \<le> n")
  case True
  then show ?thesis
  proof (induction n rule: int_ge_induct)
    case base
    show ?case by (simp add: run_months_nonpos initial_state_def)
  next
    case (step i)
    then show ?case
      by (simp add: run_months_step[of "i + 1"] trace_step upto_rec2[of 1 "i + 1"] vars_at_def)
  qed
next
  case False
  then show ?thesis by (simp add: run_months_nonpos initial_state_def)
qed

lemma rows_run_months: "rows (run_months inp n) = map (\<lambda>k. emit (vars_at inp k)) [1..n]"
proof (cases "0 \<le> n")
  case True
  then show ?thesis
  proof (induction n rule: int_ge_induct)
    case base
    show ?case by (simp add: run_months_nonpos initial_state_def)
  next
    case (step i)
    then show ?case
      by (simp add: run_months_step[of "i + 1"] rows_step upto_rec2[of 1 "i + 1"] vars_at_def)
  qed
next
  case False
  then show ?thesis by (simp add: run_months_nonpos initial_state_def)
qed

lemma loan_run_months: "1 \<le> n \<Longrightarrow> loan (run_months inp n) = v_loan (vars_at inp n)"
  by (simp add: run_months_step loan_step vars_at_def)

lemma invested_run_months: "1 \<le> n \<Longrightarrow> invested (run_months inp n) = v_invested (vars_at inp n)"
  by (simp add: run_months_step invested_step vars_at_def)

lemma find_snoc:
  "List.find P (xs @ [x]) =
     (case List.find P xs of None \<Rightarrow> (if P x then Some x else None) | Some y \<Rightarrow> Some y)"
  by (induction xs) auto

lemma paid_run_months:
  "loan_paid_off_month (run_months inp n) = List.find (\<lambda>k. v_loan (vars_at inp k) \<le> 0) [1..n]"
proof (cases "0 \<le> n")
  case True
  then show ?thesis
  proof (induction n rule: int_ge_induct)
    case base
    show ?case by (simp add: run_months_nonpos initial_state_def)
  next
    case (step i)
    then show ?case
      by (simp add: run_months_step[of "i + 1"] paid_step upto_rec2[of 1 "i + 1"] vars_at_def
          find_snoc split: option.splits)
  qed
next
  case False
  then show ?thesis by (simp add: run_months_nonpos initial_state_def)
qed

lemma length_trace_run: "length (trace (run_months inp n)) = nat n"
  by (simp add: trace_run_months add.commute)

lemma length_rows_run: "length (rows (run_months inp n)) = nat n"
  by (simp add: rows_run_months add.commute)

lemma nth_trace_run:
  "i < nat n \<Longrightarrow> trace (run_months inp n) ! i = vars_at inp (int i + 1)"
  by (simp add: trace_run_months add.commute)

lemma nth_rows_run:
  "i < nat n \<Longrightarrow> rows (run_months inp n) ! i = emit (vars_at inp (int i + 1))"
  by (simp add: rows_run_months add.commute)

lemma body_vars_fields:
  "v_month (body_vars inp d k s) = k"
  "v_year (body_vars inp d k s) = (k - 1) div 12 + 1"
  "v_current_income (body_vars inp d k s) = (case d k of None \<Rightarrow> 0 | Some v \<Rightarrow> v)"
  "v_loan_accrued (body_vars inp d k s) = loan s + loan s * loan_interest_monthly"
  "v_loan_payment_actual (body_vars inp d k s) =
     min (v_loan_accrued (body_vars inp d k s)) (of_int (loan_payment inp))"
  "v_loan (body_vars inp d k s) =
     v_loan_accrued (body_vars inp d k s) - v_loan_payment_actual (body_vars inp d k s)"
  "v_leftover (body_vars inp d k s) =
     of_int (v_current_income (body_vars inp d k s)) - v_loan_payment_actual (body_vars inp d k s)"
  "v_savings_contrib (body_vars inp d k s) =
     (if v_loan (body_vars inp d k s) \<le> 0
      then v_leftover (body_vars inp d k s) * savings_rate inp else 0)"
  "v_inheritance_this_month (body_vars inp d k s) =
     sum_list (map inh_amount (filter (\<lambda>inh. inh_month inh = k) (inheritances inp)))"
  "v_invested (body_vars inp d k s) =
     invested s * (1 + investment_return_monthly) + v_savings_contrib (body_vars inp d k s)
       + of_int (v_inheritance_this_month (body_vars inp d k s))"
  by (simp_all add: body_vars_def Let_def)

lemma emit_fields:
  "Year (emit v) = v_year v"
  "Month (emit v) = v_month v"
  "Income (emit v) = v_current_income v"
  "LoanBalance (emit v) = round2 (max (v_loan v) 0)"
  "LoanPayment (emit v) = round2 (v_loan_payment_actual v)"
  "RemainingIncome (emit v) = round2 (v_leftover v)"
  "SavedThisMonth (emit v) = round2 (v_savings_contrib v)"
  "TotalInvested (emit v) = round2 (v_invested v)"
  "Inheritance (emit v) = v_inheritance_this_month v"
  by (simp_all add: emit_def)

lemma loan_before:
  "loan (run_months inp (k - 1)) =
     (if k \<le> 1 then of_int (loan_balance inp) else v_loan (vars_at inp (k - 1)))"
  by (simp add: loan_run_months run_months_nonpos initial_state_def)

lemma invested_before:
  "invested (run_months inp (k - 1)) = (if k \<le> 1 then 0 else v_invested (vars_at inp (k - 1)))"
  by (simp add: invested_run_months run_months_nonpos initial_state_def)

lemma length_trace_simulate: "length (trace (simulate inp)) = nat (months inp)"
  by (simp add: simulate_def length_trace_run)

lemma length_rows_simulate: "length (rows (simulate inp)) = nat (months inp)"
  by (simp add: simulate_def length_rows_run)

lemma nth_trace_simulate:
  "i < nat (months inp) \<Longrightarrow> trace (simulate inp) ! i = vars_at inp (int i + 1)"
  by (simp add: simulate_def nth_trace_run)

lemma nth_rows_simulate:
  "i < nat (months inp) \<Longrightarrow> rows (simulate inp) ! i = emit (vars_at inp (int i + 1))"
  by (simp add: simulate_def nth_rows_run)

lemma rows_emit_trace: "rows (simulate inp) = map emit (trace (simulate inp))"
  by (simp add: simulate_def rows_run_months trace_run_months)

lemma payment_le_accrued:
  "v_loan_payment_actual (body_vars inp d k s) \<le> v_loan_accrued (body_vars inp d k s)"
  by (simp add: body_vars_fields(5))

lemma loan_after_payment_nonneg: "0 \<le> v_loan (body_vars inp d k s)"
  by (simp add: body_vars_fields(5,6))

lemma find_upto_Some:
  "List.find P [1..n] = Some m \<longleftrightarrow> 1 \<le> m \<and> m \<le> n \<and> P m \<and> (\<forall>k. 1 \<le> k \<and> k < m \<longrightarrow> \<not> P k)"
proof -
  have "List.find P [1..n] = Some m \<longleftrightarrow>
    (\<exists>i<length [1..n]. P ([1..n] ! i) \<and> m = [1..n] ! i \<and> (\<forall>j<i. \<not> P ([1..n] ! j)))"
    by (rule find_Some_iff)
  also have "\<dots> \<longleftrightarrow> (\<exists>i<nat n. P (1 + int i) \<and> m = 1 + int i \<and> (\<forall>j<i. \<not> P (1 + int j)))"
    by (auto simp: add.commute)
  also have "\<dots> \<longleftrightarrow> 1 \<le> m \<and> m \<le> n \<and> P m \<and> (\<forall>k. 1 \<le> k \<and> k < m \<longrightarrow> \<not> P k)"
  proof
    assume "\<exists>i<nat n. P (1 + int i) \<and> m = 1 + int i \<and> (\<forall>j<i. \<not> P (1 + int j))"
    then obtain i where i: "i < nat n" "P (1 + int i)" "m = 1 + int i" "\<forall>j<i. \<not> P (1 + int j)"
      by blast
    have "\<not> P k" if "1 \<le> k \<and> k < m" for k
    proof -
      from that i(3) have "nat (k - 1) < i" "k = 1 + int (nat (k - 1))" by auto
      with i(4) show ?thesis by metis
    qed
    with i show "1 \<le> m \<and> m \<le> n \<and> P m \<and> (\<forall>k. 1 \<le> k \<and> k < m \<longrightarrow> \<not> P k)" by auto
  next
    assume a: "1 \<le> m \<and> m \<le> n \<and> P m \<and> (\<forall>k. 1 \<le> k \<and> k < m \<longrightarrow> \<not> P k)"
    then have "nat (m - 1) < nat n \<and> P (1 + int (nat (m - 1))) \<and> m = 1 + int (nat (m - 1))
      \<and> (\<forall>j<nat (m - 1). \<not> P (1 + int j))" by auto
    then show "\<exists>i<nat n. P (1 + int i) \<and> m = 1 + int i \<and> (\<forall>j<i. \<not> P (1 + int j))" by blast
  qed
  finally show ?thesis .
qed

lemma find_upto_mono:
  assumes "List.find P [1..n] = Some m" "n \<le> n'"
  shows "List.find P [1..n'] = Some m"
  using assms by (auto simp: find_upto_Some)

lemma month_vars_at: "v_month (vars_at inp k) = k"
  by (simp add: vars_at_def body_vars_fields(1))

lemma year_vars_at: "v_year (vars_at inp k) = (k - 1) div 12 + 1"
  by (simp add: vars_at_def body_vars_fields(2))

lemma inheritance_vars_at:
  "v_inheritance_this_month (vars_at inp k) =
     sum_list (map inh_amount (filter (\<lambda>inh. inh_month inh = k) (inheritances inp)))"
  by (simp add: vars_at_def body_vars_fields(9))

lemma map_Month_rows: "map Month (rows (run_months inp n)) = [1..n]"
  by (simp add: rows_run_months o_def emit_fields(2) month_vars_at)

lemma sum_list_by_key:
  fixes f :: "'a \<Rightarrow> int"
  assumes "distinct ks"
  shows "sum_list (map (\<lambda>k. sum_list (map f (filter (\<lambda>h. g h = k) hs))) ks) =
         sum_list (map f (filter (\<lambda>h. g h \<in> set ks) hs))"
proof (induction hs)
  case Nil
  show ?case by simp
next
  case (Cons h hs)
  have one: "sum_list (map (\<lambda>k. if g h = k then f h else 0) ks) = (if g h \<in> set ks then f h else 0)"
    using assms by (induction ks) auto
  have "sum_list (map (\<lambda>k. sum_list (map f (filter (\<lambda>h. g h = k) (h # hs)))) ks) =
        sum_list (map (\<lambda>k. (if g h = k then f h else 0)
                          + sum_list (map f (filter (\<lambda>h. g h = k) hs))) ks)"
    by (intro arg_cong[where f = sum_list] map_cong) auto
  also have "\<dots> = sum_list (map (\<lambda>k. if g h = k then f h else 0) ks)
                  + sum_list (map (\<lambda>k. sum_list (map f (filter (\<lambda>h. g h = k) hs))) ks)"
    by (rule sum_list_addf)
  also have "\<dots> = sum_list (map f (filter (\<lambda>h. g h \<in> set ks) (h # hs)))"
    by (simp add: one Cons.IH)
  finally show ?case .
qed

lemma round_half_even_nonneg: "0 \<le> y \<Longrightarrow> 0 \<le> round_half_even y"
  by (simp add: round_half_even_def Let_def)

lemma round2_nonneg: "0 \<le> x \<Longrightarrow> 0 \<le> round2 x"
  by (simp add: round2_def round_half_even_nonneg)

lemma vars_at_loan_fields:
  "v_loan_accrued (vars_at inp k) =
     loan (run_months inp (k - 1)) + loan (run_months inp (k - 1)) * loan_interest_monthly"
  "v_loan_payment_actual (vars_at inp k) =
     min (v_loan_accrued (vars_at inp k)) (of_int (loan_payment inp))"
  "v_loan (vars_at inp k) = v_loan_accrued (vars_at inp k) - v_loan_payment_actual (vars_at inp k)"
  by (simp_all add: vars_at_def body_vars_fields(4,5,6))

lemma loan_vars_at_nonneg: "0 \<le> v_loan (vars_at inp k)"
  by (simp add: vars_at_def loan_after_payment_nonneg)

lemma loan_run_nonneg:
  assumes "0 \<le> loan_balance inp"
  shows "0 \<le> loan (run_months inp n)"
proof (cases "1 \<le> n")
  case True
  then show ?thesis by (simp add: loan_run_months loan_vars_at_nonneg)
next
  case False
  with assms show ?thesis by (simp add: run_months_nonpos initial_state_def)
qed

lemma accrued_nonneg:
  assumes "0 \<le> loan (run_months inp (k - 1))"
  shows "0 \<le> v_loan_accrued (vars_at inp k)"
  using assms by (simp add: vars_at_loan_fields(1) loan_interest_monthly_def loan_interest_annual_def)

lemma zero_step:
  assumes "0 \<le> loan_payment inp" "loan (run_months inp (k - 1)) = 0"
  shows "v_loan_accrued (vars_at inp k) = 0" "v_loan_payment_actual (vars_at inp k) = 0"
    "v_loan (vars_at inp k) = 0"
proof -
  show a: "v_loan_accrued (vars_at inp k) = 0"
    using assms(2) by (simp add: vars_at_loan_fields(1))
  show p: "v_loan_payment_actual (vars_at inp k) = 0"
    using assms(1) by (simp add: vars_at_loan_fields(2) a)
  show "v_loan (vars_at inp k) = 0"
    by (simp add: vars_at_loan_fields(3) a p)
qed

lemma zero_stays:
  assumes "0 \<le> loan_payment inp" "1 \<le> k" "v_loan (vars_at inp k) = 0" "k \<le> j"
  shows "v_loan (vars_at inp j) = 0"
  using assms(4)
proof (induction j rule: int_ge_induct)
  case base
  show ?case by (rule assms(3))
next
  case (step j)
  from step assms(2) have "loan (run_months inp (j + 1 - 1)) = 0"
    by (simp add: loan_run_months)
  from zero_step(3)[OF assms(1) this] show ?case .
qed

lemma zero_after:
  assumes "0 \<le> loan_payment inp" "1 \<le> k" "v_loan (vars_at inp k) = 0" "k < j"
  shows "v_loan_accrued (vars_at inp j) = 0 \<and> v_loan_payment_actual (vars_at inp j) = 0
    \<and> v_loan (vars_at inp j) = 0"
proof -
  from assms(4) have "k \<le> j - 1" by simp
  from zero_stays[OF assms(1,2,3) this] have "v_loan (vars_at inp (j - 1)) = 0" .
  with assms(2,4) have "loan (run_months inp (j - 1)) = 0" by (simp add: loan_run_months)
  from zero_step[OF assms(1) this] show ?thesis by simp
qed

section \<open>Rounding, and the scenario of a loan of 20000 paid at 500 a month\<close>

lemma growth_43: "(241 / 240 :: real) ^ 43 < 119999 / 100000"
  by (simp add: power_divide)

lemma growth_44: "(6 / 5 :: real) < (241 / 240) ^ 44"
  by (simp add: power_divide)

lemma round_half_even_near:
  "\<bar>of_int (round_half_even y) - y\<bar> \<le> 1 / 2"
proof -
  have "of_int \<lfloor>y\<rfloor> \<le> y" "y < of_int \<lfloor>y\<rfloor> + 1" by linarith+
  then show ?thesis
    by (auto simp: round_half_even_def Let_def abs_le_iff)
qed

lemma round2_near: "\<bar>round2 x - x\<bar> \<le> 1 / 200"
proof -
  have "\<bar>of_int (round_half_even (x * 100)) - x * 100\<bar> \<le> 1 / 2"
    by (rule round_half_even_near)
  then show ?thesis by (simp add: round2_def abs_le_iff field_simps)
qed

lemma round2_less: "x + 1 \<le> y \<Longrightarrow> round2 x < round2 y"
  using round2_near[of x] round2_near[of y] by linarith

lemma round2_zero: "round2 0 = 0"
  by (simp add: round2_def round_half_even_def)

lemma growth_mono: "m \<le> n \<Longrightarrow> (241 / 240 :: real) ^ m \<le> (241 / 240) ^ n"
  by (rule power_increasing) simp_all

lemma growth_strict: "(241 / 240 :: real) ^ n < (241 / 240) ^ Suc n"
  by (rule power_strict_increasing) simp_all

lemma scenario_accrued:
  "v_loan_accrued (vars_at inp k) = loan (run_months inp (k - 1)) * (241 / 240)"
  by (simp add: vars_at_loan_fields(1) loan_interest_monthly_def loan_interest_annual_def
      algebra_simps)

lemma scenario_loan:
  assumes "loan_balance inp = 20000" "loan_payment inp = 500" "0 \<le> k" "k \<le> 43"
  shows "loan (run_months inp k) = 120000 - 100000 * (241 / 240) ^ nat k"
  using assms(3,4)
proof (induction k rule: int_ge_induct)
  case base
  show ?case by (simp add: run_months_nonpos initial_state_def assms(1))
next
  case (step k)
  then have L: "loan (run_months inp k) = 120000 - 100000 * (241 / 240) ^ nat k" by simp
  have n: "nat (k + 1) = Suc (nat k)" using step.hyps by simp
  from step.prems step.hyps have "nat (k + 1) \<le> 43" by simp
  from growth_mono[OF this] growth_43
  have "(241 / 240 :: real) ^ nat (k + 1) < 119999 / 100000" by (rule le_less_trans)
  then have g: "(241 / 240 :: real) ^ Suc (nat k) < 119999 / 100000" by (simp only: n)
  have a: "v_loan_accrued (vars_at inp (k + 1)) = 120500 - 100000 * (241 / 240) ^ Suc (nat k)"
    by (simp add: scenario_accrued L algebra_simps)
  have p: "v_loan_payment_actual (vars_at inp (k + 1)) = 500"
    using g by (simp add: vars_at_loan_fields(2) a assms(2))
  have "loan (run_months inp (k + 1)) = v_loan (vars_at inp (k + 1))"
    using step.hyps by (simp add: loan_run_months)
  also have "\<dots> = 120000 - 100000 * (241 / 240) ^ Suc (nat k)"
    by (simp add: vars_at_loan_fields(3) a p)
  finally show ?case by (simp add: n)
qed

lemma scenario_before_payoff:
  assumes "loan_balance inp = 20000" "loan_payment inp = 500" "1 \<le> k" "k \<le> 43"
  shows "v_loan (vars_at inp k) = 120000 - 100000 * (241 / 240) ^ nat k"
    and "1 \<le> v_loan (vars_at inp k)"
    and "v_loan (vars_at inp k) + 1 \<le> loan (run_months inp (k - 1))"
    and "500 < v_loan_accrued (vars_at inp k)"
proof -
  from assms(3) have n: "nat k = Suc (nat (k - 1))" by simp
  show v: "v_loan (vars_at inp k) = 120000 - 100000 * (241 / 240) ^ nat k"
    using scenario_loan[OF assms(1,2) _ assms(4)] assms(3) by (simp add: loan_run_months)
  from assms(4) have "nat k \<le> 43" by simp
  from growth_mono[OF this] growth_43 have g: "(241 / 240 :: real) ^ nat k < 119999 / 100000"
    by (rule le_less_trans)
  then show "1 \<le> v_loan (vars_at inp k)" by (simp add: v)
  have prev: "loan (run_months inp (k - 1)) = 120000 - 100000 * (241 / 240) ^ nat (k - 1)"
    using assms(3,4) by (intro scenario_loan[OF assms(1,2)]) simp_all
  have "(1 :: real) \<le> (241 / 240) ^ nat (k - 1)" by (rule one_le_power) simp
  then show "v_loan (vars_at inp k) + 1 \<le> loan (run_months inp (k - 1))"
    unfolding v prev n power_Suc by linarith
  show "500 < v_loan_accrued (vars_at inp k)"
    using g by (simp add: scenario_accrued prev n algebra_simps)
qed

lemma scenario_payoff_step:
  assumes "loan_balance inp = 20000" "loan_payment inp = 500"
  shows "v_loan_accrued (vars_at inp 44) \<le> 500" and "v_loan (vars_at inp 44) = 0"
proof -
  have "loan (run_months inp 43) = 120000 - 100000 * (241 / 240) ^ nat 43"
    by (rule scenario_loan[OF assms]) simp_all
  then have L: "loan (run_months inp 43) = 120000 - 100000 * (241 / 240) ^ 43" by simp
  have e: "(241 / 240 :: real) ^ 44 = (241 / 240) ^ 43 * (241 / 240)"
    using power_Suc2[of "241 / 240 :: real" 43] by simp
  have a: "v_loan_accrued (vars_at inp 44) = 120500 - 100000 * (241 / 240) ^ 44"
    unfolding e by (simp add: scenario_accrued L algebra_simps)
  with growth_44 show le: "v_loan_accrued (vars_at inp 44) \<le> 500" by simp
  then have "v_loan_payment_actual (vars_at inp 44) = v_loan_accrued (vars_at inp 44)"
    by (simp add: vars_at_loan_fields(2) assms(2))
  then show "v_loan (vars_at inp 44) = 0" by (simp add: vars_at_loan_fields(3))
qed

lemma scenario_paid_off:
  assumes "loan_balance inp = 20000" "loan_payment inp = 500" "44 \<le> n"
  shows "loan_paid_off_month (run_months inp n) = Some 44"
proof -
  have "\<not> v_loan (vars_at inp k) \<le> 0" if "1 \<le> k \<and> k < 44" for k
    using scenario_before_payoff(2)[OF assms(1,2), of k] that by simp
  then show ?thesis
    using assms(3) scenario_payoff_step(2)[OF assms(1,2)]
    by (simp add: paid_run_months find_upto_Some)
qed

lemma scenario_step_down:
  assumes "loan_balance inp = 20000" "loan_payment inp = 500" "1 \<le> k" "k \<le> 44"
  shows "v_loan (vars_at inp k) + 1 \<le> (if k = 1 then 20000 else v_loan (vars_at inp (k - 1)))"
proof (cases "k \<le> 43")
  case True
  from scenario_before_payoff(3)[OF assms(1,2,3) True]
  have "v_loan (vars_at inp k) + 1 \<le> loan (run_months inp (k - 1))" .
  also have "loan (run_months inp (k - 1)) =
      (if k = 1 then 20000 else v_loan (vars_at inp (k - 1)))"
    using assms(3) by (auto simp: loan_before assms(1))
  finally show ?thesis .
next
  case False
  with assms(4) have k: "k = 44" by simp
  from scenario_before_payoff(2)[OF assms(1,2), of 43] scenario_payoff_step(2)[OF assms(1,2)]
  show ?thesis by (simp add: k)
qed

section \<open>The example inputs\<close>

lemma income_by_month_find:
  "income_by_month ps rm m =
     (if m \<le> rm then map_option monthly_income (List.find (\<lambda>p. covers p m) (rev ps)) else None)"
proof (induction ps rule: rev_induct)
  case Nil
  show ?case by (simp add: income_by_month_Nil)
next
  case (snoc p ps)
  then show ?case by (simp add: income_by_month_snoc add_period_apply)
qed

lemma default_fields:
  "loan_balance default_inputs = 20000" "loan_payment default_inputs = 500"
  "savings_rate default_inputs = 20 / 100" "years default_inputs = 20"
  "months default_inputs = 240"
  "inheritances default_inputs = [\<lparr>inh_month = 120, inh_amount = 50000\<rparr>]"
  by (simp_all add: default_inputs_def months_def)

lemma default_income:
  "income_dict default_inputs m = (if 1 \<le> m \<and> m \<le> 36 then Some 4000 else None)"
  by (auto simp: income_dict_def income_by_month_find retirement_month_def default_inputs_def
      covers_def)

lemma default_trace:
  "i < 240 \<Longrightarrow> trace (simulate default_inputs) ! i = vars_at default_inputs (int i + 1)"
  "i < 240 \<Longrightarrow> rows (simulate default_inputs) ! i = emit (vars_at default_inputs (int i + 1))"
  "length (trace (simulate default_inputs)) = 240"
  "length (rows (simulate default_inputs)) = 240"
  by (simp_all add: nth_trace_simulate nth_rows_simulate length_trace_simulate
      length_rows_simulate default_fields(5))

lemma default_first_month:
  "v_current_income (vars_at default_inputs 1) = 4000"
  "v_loan_payment_actual (vars_at default_inputs 1) = 500"
  "0 < v_loan (vars_at default_inputs 1)"
  "v_inheritance_this_month (vars_at default_inputs 1) = 0"
proof -
  show "v_current_income (vars_at default_inputs 1) = 4000"
    by (simp add: vars_at_def body_vars_fields(3) default_income)
  from scenario_before_payoff(4)[OF default_fields(1,2), of 1]
  show "v_loan_payment_actual (vars_at default_inputs 1) = 500"
    by (simp add: vars_at_loan_fields(2) default_fields(2))
  from scenario_before_payoff(2)[OF default_fields(1,2), of 1]
  show "0 < v_loan (vars_at default_inputs 1)" by simp
  show "v_inheritance_this_month (vars_at default_inputs 1) = 0"
    by (simp add: inheritance_vars_at default_fields(6))
qed

lemma default_before_payoff:
  "i < 43 \<Longrightarrow> 0 < v_loan (trace (simulate default_inputs) ! i)"
  using scenario_before_payoff(2)[OF default_fields(1,2), of "int i + 1"]
  by (simp add: default_trace(1))

lemma default_at_payoff: "v_loan (trace (simulate default_inputs) ! 43) = 0"
  using scenario_payoff_step(2)[OF default_fields(1,2)] default_trace(1)[of 43] by simp

lemma negative_payment_fields:
  "loan_balance negative_payment_inputs = - 100" "loan_payment negative_payment_inputs = - 50"
  "savings_rate negative_payment_inputs = 20 / 100" "months negative_payment_inputs = 60"
  by (simp_all add: negative_payment_inputs_def months_def)

lemma negative_payment_income:
  "income_dict negative_payment_inputs m = (if 1 \<le> m \<and> m \<le> 60 then Some 4000 else None)"
  by (auto simp: income_dict_def income_by_month_find retirement_month_def
      negative_payment_inputs_def covers_def)

lemma negative_payment_month_1:
  "v_loan_accrued (vars_at negative_payment_inputs 1) = - 100 - 100 * (0.05 / 12)"
  "v_loan_payment_actual (vars_at negative_payment_inputs 1) = - 100 - 100 * (0.05 / 12)"
  "v_loan (vars_at negative_payment_inputs 1) = 0"
proof -
  show a: "v_loan_accrued (vars_at negative_payment_inputs 1) = - 100 - 100 * (0.05 / 12)"
    by (simp add: vars_at_loan_fields(1) run_months_nonpos initial_state_def
        negative_payment_fields(1) loan_interest_monthly_def loan_interest_annual_def)
  show p: "v_loan_payment_actual (vars_at negative_payment_inputs 1) = - 100 - 100 * (0.05 / 12)"
    by (simp add: vars_at_loan_fields(2) a negative_payment_fields(2))
  show "v_loan (vars_at negative_payment_inputs 1) = 0"
    by (simp add: vars_at_loan_fields(3) a p)
qed

lemma negative_payment_month_2:
  "v_loan_accrued (vars_at negative_payment_inputs 2) = 0"
  "v_loan_payment_actual (vars_at negative_payment_inputs 2) = - 50"
  "v_loan (vars_at negative_payment_inputs 2) = 50"
  "v_leftover (vars_at negative_payment_inputs 2) = 4050"
  "v_savings_contrib (vars_at negative_payment_inputs 2) = 0"
proof -
  have before: "loan (run_months negative_payment_inputs (2 - 1)) = 0"
    using loan_run_months[of 1 negative_payment_inputs] negative_payment_month_1(3) by simp
  show a: "v_loan_accrued (vars_at negative_payment_inputs 2) = 0"
    by (simp only: vars_at_loan_fields(1) before mult_zero_left add_0_left)
  show p: "v_loan_payment_actual (vars_at negative_payment_inputs 2) = - 50"
    by (simp add: vars_at_loan_fields(2) a negative_payment_fields(2))
  show l: "v_loan (vars_at negative_payment_inputs 2) = 50"
    by (simp add: vars_at_loan_fields(3) a p)
  have i: "v_current_income (vars_at negative_payment_inputs 2) = 4000"
    by (simp add: vars_at_def body_vars_fields(3) negative_payment_income)
  have f: "v_leftover (vars_at negative_payment_inputs 2) =
      of_int (v_current_income (vars_at negative_payment_inputs 2))
        - v_loan_payment_actual (vars_at negative_payment_inputs 2)"
    unfolding vars_at_def by (rule body_vars_fields(7))
  show "v_leftover (vars_at negative_payment_inputs 2) = 4050"
    by (simp add: f i p)
  have s: "v_savings_contrib (vars_at negative_payment_inputs 2) =
      (if v_loan (vars_at negative_payment_inputs 2) \<le> 0
       then v_leftover (vars_at negative_payment_inputs 2) * savings_rate negative_payment_inputs
       else 0)"
    unfolding vars_at_def by (rule body_vars_fields(8))
  show "v_savings_contrib (vars_at negative_payment_inputs 2) = 0"
    by (simp add: s l)
qed

lemma round2_of_int: "round2 (of_int n) = of_int n"
proof -
  have "of_int n * 100 = (of_int (n * 100) :: real)" by simp
  then have "round_half_even (of_int n * 100) = n * 100"
    by (simp only: round_half_even_def Let_def floor_of_int) simp
  then show ?thesis by (simp add: round2_def)
qed

section \<open>The projection engine, month by month\<close>

text \<open>
  In the theorems below, \<open>trace (simulate inp) ! i\<close> holds the variables of month
  \<open>i + 1\<close> and \<open>rows (simulate inp) ! i\<close> is that month's row.
\<close>

text \<open>
  Claim C1. In every month the income is the one the dictionary holds for the month (zero
  when it holds none), the leftover is the income minus the actual payment (it may be
  negative), the savings contribution is the leftover times the savings rate when the loan
  after this month's payment is at most zero and zero otherwise, and the invested balance
  becomes the previous one (zero before the first month) times \<open>1 + 0.07/12\<close> plus the
  savings contribution plus the month's inheritance, the sum of the inheritances of that
  month.
\<close>

theorem savings_and_invested:
  assumes "i < length (trace (simulate inp))"
  defines "v \<equiv> trace (simulate inp) ! i"
  shows "v_current_income v = (case income_dict inp (int i + 1) of None \<Rightarrow> 0 | Some a \<Rightarrow> a)
    \<and> v_leftover v = of_int (v_current_income v) - v_loan_payment_actual v
    \<and> v_savings_contrib v = (if v_loan v \<le> 0 then v_leftover v * savings_rate inp else 0)
    \<and> v_inheritance_this_month v =
        sum_list (map inh_amount (filter (\<lambda>h. inh_month h = int i + 1) (inheritances inp)))
    \<and> v_invested v =
        (if i = 0 then 0 else v_invested (trace (simulate inp) ! (i - 1))) * (1 + 0.07 / 12)
        + v_savings_contrib v + of_int (v_inheritance_this_month v)"
proof -
  from assms(1) have i: "i < nat (months inp)" by (simp add: length_trace_simulate)
  then have v: "v = vars_at inp (int i + 1)" by (simp add: v_def nth_trace_simulate)
  have prev: "i \<noteq> 0 \<Longrightarrow> trace (simulate inp) ! (i - 1) = vars_at inp (int i)"
    using i nth_trace_simulate[of "i - 1" inp] by (simp add: of_nat_diff)
  have inv: "invested (run_months inp (int i)) =
     (if i = 0 then 0 else v_invested (trace (simulate inp) ! (i - 1)))"
    using invested_before[of inp "int i + 1"] prev by auto
  let ?b = "body_vars inp (income_dict inp) (int i + 1) (run_months inp (int i))"
  have b: "v = ?b" by (simp add: v vars_at_def)
  have "v_invested ?b =
      (if i = 0 then 0 else v_invested (trace (simulate inp) ! (i - 1))) * (1 + 0.07 / 12)
      + v_savings_contrib ?b + of_int (v_inheritance_this_month ?b)"
    by (subst body_vars_fields(10))
      (simp add: inv investment_return_monthly_def investment_return_annual_def)
  then show ?thesis
    unfolding b
    using body_vars_fields(3,7,8,9)[of inp "income_dict inp" "int i + 1" "run_months inp (int i)"]
    by blast
qed

text \<open>
  With the default inputs: month 1 has an income of 4000 and a payment of 500, the loan
  remains, so nothing is saved and nothing is invested yet; month 44 pays the loan off and
  saves 20 percent of its leftover.
\<close>

theorem savings_and_invested_witness:
  "0 < length (trace (simulate default_inputs))
   \<and> v_leftover (trace (simulate default_inputs) ! 0) = 3500
   \<and> v_savings_contrib (trace (simulate default_inputs) ! 0) = 0
   \<and> v_invested (trace (simulate default_inputs) ! 0) = 0
   \<and> 43 < length (trace (simulate default_inputs))
   \<and> v_savings_contrib (trace (simulate default_inputs) ! 43)
       = v_leftover (trace (simulate default_inputs) ! 43) * (20 / 100)"
proof -
  have len: "0 < length (trace (simulate default_inputs))"
    "43 < length (trace (simulate default_inputs))"
    by (simp_all add: default_trace(3))
  have t0: "trace (simulate default_inputs) ! 0 = vars_at default_inputs 1"
    using default_trace(1)[of 0] by simp
  have t43: "trace (simulate default_inputs) ! 43 = vars_at default_inputs 44"
    using default_trace(1)[of 43] by simp
  have paid: "v_loan (vars_at default_inputs 44) = 0"
    by (rule scenario_payoff_step(2)[OF default_fields(1,2)])
  from savings_and_invested[OF len(1)] default_first_month
  have "v_leftover (trace (simulate default_inputs) ! 0) = 3500
   \<and> v_savings_contrib (trace (simulate default_inputs) ! 0) = 0
   \<and> v_invested (trace (simulate default_inputs) ! 0) = 0"
    by (simp add: t0)
  moreover from savings_and_invested[OF len(2)] paid
  have "v_savings_contrib (trace (simulate default_inputs) ! 43)
       = v_leftover (trace (simulate default_inputs) ! 43) * (20 / 100)"
    by (simp add: t43 default_fields(3))
  ultimately show ?thesis using len by blast
qed

text \<open>
  Claim C2. In every month the loan first accrues interest at \<open>0.05/12\<close> on the balance the
  month starts with, the actual payment is the smaller of the balance after interest and
  the fixed payment, and it is subtracted: the payment never exceeds the balance it is
  taken from, and the balance after the payment is never negative.
\<close>

theorem interest_then_payment:
  assumes "i < length (trace (simulate inp))"
  defines "v \<equiv> trace (simulate inp) ! i"
  defines "before \<equiv> (if i = 0 then of_int (loan_balance inp)
                       else v_loan (trace (simulate inp) ! (i - 1)))"
  shows "v_loan_accrued v = before + before * (0.05 / 12)
    \<and> v_loan_payment_actual v = min (v_loan_accrued v) (of_int (loan_payment inp))
    \<and> v_loan v = v_loan_accrued v - v_loan_payment_actual v
    \<and> v_loan_payment_actual v \<le> v_loan_accrued v
    \<and> 0 \<le> v_loan v"
proof -
  from assms(1) have i: "i < nat (months inp)" by (simp add: length_trace_simulate)
  then have v: "v = vars_at inp (int i + 1)" by (simp add: v_def nth_trace_simulate)
  have prev: "i \<noteq> 0 \<Longrightarrow> trace (simulate inp) ! (i - 1) = vars_at inp (int i)"
    using i nth_trace_simulate[of "i - 1" inp] by (simp add: of_nat_diff)
  have before: "loan (run_months inp (int i)) = before"
    using loan_before[of inp "int i + 1"] prev by (auto simp: before_def)
  have "v_loan_accrued v = before + before * (0.05 / 12)"
    unfolding v vars_at_def
    by (simp add: body_vars_fields(4) before loan_interest_monthly_def loan_interest_annual_def)
  moreover have "v_loan_payment_actual v = min (v_loan_accrued v) (of_int (loan_payment inp))"
    unfolding v vars_at_def by (rule body_vars_fields(5))
  moreover have "v_loan v = v_loan_accrued v - v_loan_payment_actual v"
    unfolding v vars_at_def by (rule body_vars_fields(6))
  moreover have "v_loan_payment_actual v \<le> v_loan_accrued v"
    unfolding v vars_at_def by (rule payment_le_accrued)
  moreover have "0 \<le> v_loan v"
    unfolding v vars_at_def by (rule loan_after_payment_nonneg)
  ultimately show ?thesis by blast
qed

text \<open>
  With the default inputs, month 1: interest on 20000, then the full payment of 500.
\<close>

theorem interest_then_payment_witness:
  "0 < length (trace (simulate default_inputs))
   \<and> v_loan_accrued (trace (simulate default_inputs) ! 0) = 20000 + 20000 * (0.05 / 12)
   \<and> v_loan_payment_actual (trace (simulate default_inputs) ! 0) = 500
   \<and> v_loan (trace (simulate default_inputs) ! 0) = 20000 + 20000 * (0.05 / 12) - 500
   \<and> 0 \<le> v_loan (trace (simulate default_inputs) ! 0)"
proof -
  have len: "0 < length (trace (simulate default_inputs))"
    by (simp add: default_trace(3))
  from interest_then_payment[OF len] show ?thesis
    using len by (simp add: default_fields(1,2))
qed

text \<open>
  Claim C3. The payoff month recorded by the run is \<open>m\<close> exactly when \<open>m\<close> is the first
  month of the horizon whose loan after payment is at most zero; and once some month has
  been recorded after \<open>n\<close> months of the loop, it is still the recorded month after any
  larger number of months: it is never overwritten.
\<close>

theorem payoff_month_first:
  fixes inp defines "tr \<equiv> trace (simulate inp)"
  shows "(loan_paid_off_month (simulate inp) = Some m \<longleftrightarrow>
           1 \<le> m \<and> m \<le> months inp \<and> v_loan (tr ! nat (m - 1)) \<le> 0
           \<and> (\<forall>i<nat (m - 1). 0 < v_loan (tr ! i)))
    \<and> (\<forall>n n'. loan_paid_off_month (run_months inp n) = Some m \<and> n \<le> n'
          \<longrightarrow> loan_paid_off_month (run_months inp n') = Some m)"
proof (intro conjI allI impI)
  have tr: "tr ! i = vars_at inp (int i + 1)" if "i < nat (months inp)" for i
    using that by (simp add: tr_def nth_trace_simulate)
  show "loan_paid_off_month (simulate inp) = Some m \<longleftrightarrow>
           1 \<le> m \<and> m \<le> months inp \<and> v_loan (tr ! nat (m - 1)) \<le> 0
           \<and> (\<forall>i<nat (m - 1). 0 < v_loan (tr ! i))" (is "?L \<longleftrightarrow> ?R")
  proof
    assume ?L
    then have f: "1 \<le> m" "m \<le> months inp" "v_loan (vars_at inp m) \<le> 0"
      "\<forall>k. 1 \<le> k \<and> k < m \<longrightarrow> \<not> v_loan (vars_at inp k) \<le> 0"
      by (simp_all add: simulate_def paid_run_months find_upto_Some)
    from f(1,2) have "tr ! nat (m - 1) = vars_at inp m" using tr[of "nat (m - 1)"] by simp
    moreover have "0 < v_loan (tr ! i)" if "i < nat (m - 1)" for i
    proof -
      from that f(2) have "tr ! i = vars_at inp (int i + 1)" by (intro tr) linarith
      moreover from that have "1 \<le> int i + 1 \<and> int i + 1 < m" by linarith
      ultimately show ?thesis using f(4) by (simp add: not_le)
    qed
    ultimately show ?R using f by simp
  next
    assume r: ?R
    then have m: "1 \<le> m" "m \<le> months inp" by simp_all
    then have "tr ! nat (m - 1) = vars_at inp m" using tr[of "nat (m - 1)"] by simp
    with r have 1: "v_loan (vars_at inp m) \<le> 0" by simp
    have 2: "\<not> v_loan (vars_at inp k) \<le> 0" if "1 \<le> k \<and> k < m" for k
    proof -
      from that m have k: "nat (k - 1) < nat (m - 1)" "nat (k - 1) < nat (months inp)"
        by linarith+
      from r k(1) have "0 < v_loan (tr ! nat (k - 1))" by blast
      moreover from tr[OF k(2)] that have "tr ! nat (k - 1) = vars_at inp k" by simp
      ultimately show ?thesis by simp
    qed
    show ?L using m 1 2 by (simp add: simulate_def paid_run_months find_upto_Some)
  qed
next
  fix n n' assume "loan_paid_off_month (run_months inp n) = Some m \<and> n \<le> n'"
  then show "loan_paid_off_month (run_months inp n') = Some m"
    unfolding paid_run_months by (blast intro: find_upto_mono)
qed

text \<open>
  With the default inputs the loan is positive after months 1 to 43 and zero after month
  44: the payoff month recorded is 44, after 44 months of the loop and after all 240.
\<close>

theorem payoff_month_first_witness:
  "loan_paid_off_month (simulate default_inputs) = Some 44
   \<and> loan_paid_off_month (run_months default_inputs 44) = Some 44
   \<and> loan_paid_off_month (run_months default_inputs 240) = Some 44"
proof -
  have first: "1 \<le> (44 :: int) \<and> 44 \<le> months default_inputs
      \<and> v_loan (trace (simulate default_inputs) ! nat (44 - 1)) \<le> 0
      \<and> (\<forall>i<nat (44 - 1). 0 < v_loan (trace (simulate default_inputs) ! i))"
    using default_before_payoff default_at_payoff by (simp add: default_fields(5))
  have at44: "loan_paid_off_month (run_months default_inputs 44) = Some 44"
    by (rule scenario_paid_off[OF default_fields(1,2)]) simp
  note payoff = payoff_month_first[of default_inputs 44]
  from payoff[THEN conjunct1] first
  have "loan_paid_off_month (simulate default_inputs) = Some 44" by blast
  moreover from payoff[THEN conjunct2, THEN spec, THEN spec, of 44 240] at44
  have "loan_paid_off_month (run_months default_inputs 240) = Some 44" by simp
  ultimately show ?thesis using at44 by blast
qed

text \<open>
  Claim C5. For a horizon of 5 to 40 years the run emits exactly \<open>years * 12\<close> rows, their
  \<open>Month\<close> fields are \<open>1, 2, \<dots>, years * 12\<close> in this order, and every row's \<open>Year\<close> is
  \<open>(Month - 1) div 12 + 1\<close> (Python's floor division).
\<close>

theorem record_count_and_months:
  assumes "5 \<le> years inp" "years inp \<le> 40"
  shows "length (rows (simulate inp)) = nat (years inp * 12)
    \<and> map Month (rows (simulate inp)) = [1..years inp * 12]
    \<and> (\<forall>i<length (rows (simulate inp)).
          Month (rows (simulate inp) ! i) = int i + 1
          \<and> Year (rows (simulate inp) ! i) = (Month (rows (simulate inp) ! i) - 1) div 12 + 1)"
proof (intro conjI allI impI)
  show "length (rows (simulate inp)) = nat (years inp * 12)"
    by (simp add: length_rows_simulate months_def)
  show "map Month (rows (simulate inp)) = [1..years inp * 12]"
    by (simp add: simulate_def map_Month_rows months_def)
next
  fix i assume "i < length (rows (simulate inp))"
  then have "rows (simulate inp) ! i = emit (vars_at inp (int i + 1))"
    by (simp add: length_rows_simulate nth_rows_simulate)
  then show "Month (rows (simulate inp) ! i) = int i + 1"
    and "Year (rows (simulate inp) ! i) = (Month (rows (simulate inp) ! i) - 1) div 12 + 1"
    by (simp_all add: emit_fields(1,2) month_vars_at year_vars_at)
qed

text \<open>
  With the default inputs (20 years): 240 rows, the first of month 1 in year 1, the last of
  month 240 in year 20.
\<close>

theorem record_count_and_months_witness:
  "5 \<le> years default_inputs \<and> years default_inputs \<le> 40
   \<and> length (rows (simulate default_inputs)) = 240
   \<and> map Month (rows (simulate default_inputs)) = [1..240]
   \<and> Month (rows (simulate default_inputs) ! 0) = 1
   \<and> Year (rows (simulate default_inputs) ! 0) = 1
   \<and> Month (rows (simulate default_inputs) ! 239) = 240
   \<and> Year (rows (simulate default_inputs) ! 239) = 20"
proof -
  have y: "5 \<le> years default_inputs" "years default_inputs \<le> 40"
    by (simp_all add: default_fields(4))
  note count = record_count_and_months[OF y]
  from count have len: "length (rows (simulate default_inputs)) = 240"
    by (simp add: default_fields(4))
  from count have all: "\<forall>i<240. Month (rows (simulate default_inputs) ! i) = int i + 1
      \<and> Year (rows (simulate default_inputs) ! i)
          = (Month (rows (simulate default_inputs) ! i) - 1) div 12 + 1"
    by (simp add: default_fields(4))
  from all have "Month (rows (simulate default_inputs) ! 0) = 1
      \<and> Year (rows (simulate default_inputs) ! 0) = 1" by simp
  moreover from all have "Month (rows (simulate default_inputs) ! 239) = 240
      \<and> Year (rows (simulate default_inputs) ! 239) = 20" by simp
  moreover from count have "map Month (rows (simulate default_inputs)) = [1..240]"
    by (simp add: default_fields(4))
  ultimately show ?thesis using y len by blast
qed

text \<open>
  Claim C6, for a monthly payment that is not negative. When a payoff month \<open>m\<close> has been
  recorded, every month from \<open>m\<close> on has a loan of at most zero after its payment and so
  takes the savings branch: its contribution is the leftover times the savings rate, and
  \<open>SavedThisMonth\<close> is that value rounded. The loop decides the branch on the balance of
  the month, not on the recorded payoff month.
\<close>

theorem savings_after_payoff:
  fixes inp defines "tr \<equiv> trace (simulate inp)"
  assumes "0 \<le> loan_payment inp" "loan_paid_off_month (simulate inp) = Some m"
    "nat (m - 1) \<le> i" "i < length tr"
  shows "v_loan (tr ! i) \<le> 0
    \<and> v_savings_contrib (tr ! i) = v_leftover (tr ! i) * savings_rate inp
    \<and> SavedThisMonth (rows (simulate inp) ! i) = round2 (v_leftover (tr ! i) * savings_rate inp)"
proof -
  have len: "length tr = nat (months inp)" by (simp add: tr_def length_trace_simulate)
  have tr: "tr ! i = vars_at inp (int i + 1)"
    using assms(5) by (simp add: tr_def length_trace_simulate nth_trace_simulate)
  have row: "rows (simulate inp) ! i = emit (tr ! i)"
    using assms(5) by (simp add: len tr nth_rows_simulate)
  from assms(3) have m: "1 \<le> m" "v_loan (vars_at inp m) \<le> 0"
    by (simp_all add: simulate_def paid_run_months find_upto_Some)
  with loan_vars_at_nonneg[of inp m] have "v_loan (vars_at inp m) = 0" by simp
  moreover from assms(4) have "m \<le> int i + 1" by linarith
  ultimately have "v_loan (vars_at inp (int i + 1)) = 0"
    using assms(2) m(1) by (rule zero_stays[of inp m, rotated 2])
  then have z: "v_loan (tr ! i) = 0" by (simp add: tr)
  have s: "v_savings_contrib (tr ! i) = v_leftover (tr ! i) * savings_rate inp"
    using z unfolding tr vars_at_def by (simp add: body_vars_fields(8))
  show ?thesis using z s by (simp add: row emit_fields(7))
qed

text \<open>
  With the default inputs the payoff month is 44; months 44 and 240 save 20 percent of
  their leftover.
\<close>

theorem savings_after_payoff_witness:
  "0 \<le> loan_payment default_inputs
   \<and> loan_paid_off_month (simulate default_inputs) = Some 44
   \<and> v_loan (trace (simulate default_inputs) ! 43) \<le> 0
   \<and> v_savings_contrib (trace (simulate default_inputs) ! 43)
       = v_leftover (trace (simulate default_inputs) ! 43) * (20 / 100)
   \<and> v_savings_contrib (trace (simulate default_inputs) ! 239)
       = v_leftover (trace (simulate default_inputs) ! 239) * (20 / 100)
   \<and> SavedThisMonth (rows (simulate default_inputs) ! 239)
       = round2 (v_leftover (trace (simulate default_inputs) ! 239) * (20 / 100))"
proof -
  have pay: "0 \<le> loan_payment default_inputs" by (simp add: default_fields(2))
  have paid: "loan_paid_off_month (simulate default_inputs) = Some 44"
    unfolding simulate_def
    by (rule scenario_paid_off[OF default_fields(1,2)]) (simp add: default_fields(5))
  have "nat (44 - 1) \<le> 43" "43 < length (trace (simulate default_inputs))"
    by (simp_all add: default_trace(3))
  from savings_after_payoff[OF pay paid this]
  have a: "v_loan (trace (simulate default_inputs) ! 43) \<le> 0
   \<and> v_savings_contrib (trace (simulate default_inputs) ! 43)
       = v_leftover (trace (simulate default_inputs) ! 43) * (20 / 100)"
    by (simp add: default_fields(3))
  have "nat (44 - 1) \<le> 239" "239 < length (trace (simulate default_inputs))"
    by (simp_all add: default_trace(3))
  from savings_after_payoff[OF pay paid this]
  have b: "v_savings_contrib (trace (simulate default_inputs) ! 239)
       = v_leftover (trace (simulate default_inputs) ! 239) * (20 / 100)
   \<and> SavedThisMonth (rows (simulate default_inputs) ! 239)
       = round2 (v_leftover (trace (simulate default_inputs) ! 239) * (20 / 100))"
    by (simp add: default_fields(3))
  from pay paid a b show ?thesis by blast
qed

text \<open>
  Without that condition the claim fails: with a balance of -100 and a payment of -50,
  month 1 pays the whole balance after interest and is recorded as the payoff month; month 2 then
  pays -50, which leaves a loan of 50, and it saves nothing although its leftover times
  the savings rate is 810.
\<close>

theorem savings_after_payoff_counterexample:
  "loan_paid_off_month (simulate negative_payment_inputs) = Some 1
   \<and> 1 < length (trace (simulate negative_payment_inputs))
   \<and> 0 < v_loan (trace (simulate negative_payment_inputs) ! 1)
   \<and> v_savings_contrib (trace (simulate negative_payment_inputs) ! 1) = 0
   \<and> v_leftover (trace (simulate negative_payment_inputs) ! 1)
       * savings_rate negative_payment_inputs = 810
   \<and> SavedThisMonth (rows (simulate negative_payment_inputs) ! 1) = 0
   \<and> round2 (v_leftover (trace (simulate negative_payment_inputs) ! 1)
       * savings_rate negative_payment_inputs) = 810"
proof -
  have paid: "loan_paid_off_month (simulate negative_payment_inputs) = Some 1"
    by (simp add: simulate_def paid_run_months find_upto_Some negative_payment_fields(4)
        negative_payment_month_1(3))
  have len: "1 < length (trace (simulate negative_payment_inputs))"
    by (simp add: length_trace_simulate negative_payment_fields(4))
  have t: "trace (simulate negative_payment_inputs) ! 1 = vars_at negative_payment_inputs 2"
    using nth_trace_simulate[of 1 negative_payment_inputs]
    by (simp add: negative_payment_fields(4))
  have r: "rows (simulate negative_payment_inputs) ! 1 = emit (vars_at negative_payment_inputs 2)"
    using nth_rows_simulate[of 1 negative_payment_inputs]
    by (simp add: negative_payment_fields(4))
  have saved: "SavedThisMonth (rows (simulate negative_payment_inputs) ! 1) = 0"
    unfolding r by (simp add: emit_fields(7) negative_payment_month_2(5) round2_zero)
  have prod: "v_leftover (trace (simulate negative_payment_inputs) ! 1)
       * savings_rate negative_payment_inputs = 810"
    unfolding t by (simp add: negative_payment_month_2(4) negative_payment_fields(3))
  have "round2 810 = 810" using round2_of_int[of 810] by simp
  with prod have rounded: "round2 (v_leftover (trace (simulate negative_payment_inputs) ! 1)
       * savings_rate negative_payment_inputs) = 810" by simp
  have "0 < v_loan (trace (simulate negative_payment_inputs) ! 1)"
    and "v_savings_contrib (trace (simulate negative_payment_inputs) ! 1) = 0"
    unfolding t by (simp_all add: negative_payment_month_2(3,5))
  with paid len saved prod rounded show ?thesis by blast
qed

text \<open>
  Claim C7. When every inheritance falls on month \<open>year * 12\<close> for a year between 1 and
  \<open>years\<close>, the \<open>Inheritance\<close> fields of all rows add up to the sum of the input amounts;
  the row of a month holds the sum of all inheritances of that month, so several
  inheritances in one month are added into that month's row.
\<close>

theorem inheritance_total:
  assumes "\<forall>h\<in>set (inheritances inp). \<exists>y. 1 \<le> y \<and> y \<le> years inp \<and> inh_month h = y * 12"
  shows "sum_list (map Inheritance (rows (simulate inp))) =
           sum_list (map inh_amount (inheritances inp))
    \<and> (\<forall>i<length (rows (simulate inp)).
          Inheritance (rows (simulate inp) ! i) =
            sum_list (map inh_amount
              (filter (\<lambda>h. inh_month h = int i + 1) (inheritances inp))))"
proof (intro conjI allI impI)
  have "map Inheritance (rows (simulate inp)) =
        map (\<lambda>k. sum_list (map inh_amount (filter (\<lambda>h. inh_month h = k) (inheritances inp))))
          [1..months inp]"
    by (simp add: simulate_def rows_run_months o_def emit_fields(9) inheritance_vars_at)
  then have "sum_list (map Inheritance (rows (simulate inp))) =
        sum_list (map inh_amount
          (filter (\<lambda>h. inh_month h \<in> set [1..months inp]) (inheritances inp)))"
    by (simp add: sum_list_by_key)
  also have "filter (\<lambda>h. inh_month h \<in> set [1..months inp]) (inheritances inp) = inheritances inp"
  proof (rule filter_True, intro ballI)
    fix h assume "h \<in> set (inheritances inp)"
    with assms obtain y where "1 \<le> y" "y \<le> years inp" "inh_month h = y * 12" by blast
    then show "inh_month h \<in> set [1..months inp]" by (simp add: months_def)
  qed
  finally show "sum_list (map Inheritance (rows (simulate inp))) =
           sum_list (map inh_amount (inheritances inp))" .
next
  fix i assume "i < length (rows (simulate inp))"
  then have "rows (simulate inp) ! i = emit (vars_at inp (int i + 1))"
    by (simp add: length_rows_simulate nth_rows_simulate)
  then show "Inheritance (rows (simulate inp) ! i) =
            sum_list (map inh_amount
              (filter (\<lambda>h. inh_month h = int i + 1) (inheritances inp)))"
    by (simp add: emit_fields(9) inheritance_vars_at)
qed

text \<open>
  Two inheritances of 1000 and 2500, both in month 24: the rows add up to 3500, all of it in
  the row of month 24.
\<close>

theorem inheritance_total_witness:
  "sum_list (map Inheritance (rows (simulate two_inheritances_inputs))) = 3500
   \<and> 23 < length (rows (simulate two_inheritances_inputs))
   \<and> Inheritance (rows (simulate two_inheritances_inputs) ! 23) = 3500
   \<and> Inheritance (rows (simulate two_inheritances_inputs) ! 24) = 0"
proof -
  have inh: "inheritances two_inheritances_inputs =
      [\<lparr>inh_month = 24, inh_amount = 1000\<rparr>, \<lparr>inh_month = 24, inh_amount = 2500\<rparr>]"
    and y: "years two_inheritances_inputs = 20"
    by (simp_all add: two_inheritances_inputs_def default_inputs_def)
  have len: "length (rows (simulate two_inheritances_inputs)) = 240"
    by (simp add: length_rows_simulate months_def y)
  have "1 \<le> (2 :: int) \<and> 2 \<le> years two_inheritances_inputs \<and> (24 :: int) = 2 * 12"
    by (simp add: y)
  then have "\<exists>y. 1 \<le> y \<and> y \<le> years two_inheritances_inputs \<and> (24 :: int) = y * 12" ..
  then have valid: "\<forall>h\<in>set (inheritances two_inheritances_inputs).
      \<exists>y. 1 \<le> y \<and> y \<le> years two_inheritances_inputs \<and> inh_month h = y * 12"
    by (simp add: inh)
  note total = inheritance_total[OF valid]
  from total have "sum_list (map Inheritance (rows (simulate two_inheritances_inputs))) = 3500"
    by (simp add: inh)
  moreover from total have "\<forall>i<240. Inheritance (rows (simulate two_inheritances_inputs) ! i) =
      sum_list (map inh_amount (filter (\<lambda>h. inh_month h = int i + 1)
        (inheritances two_inheritances_inputs)))"
    by (simp add: len)
  then have "Inheritance (rows (simulate two_inheritances_inputs) ! 23) = 3500
      \<and> Inheritance (rows (simulate two_inheritances_inputs) ! 24) = 0"
    by (simp add: inh)
  ultimately show ?thesis using len by simp
qed

text \<open>
  Claim C8. The \<open>LoanBalance\<close> of every emitted row is at least zero.
\<close>

theorem loan_balance_output_nonneg:
  assumes "i < length (rows (simulate inp))"
  shows "0 \<le> LoanBalance (rows (simulate inp) ! i)"
proof -
  from assms have "rows (simulate inp) ! i = emit (vars_at inp (int i + 1))"
    by (simp add: length_rows_simulate nth_rows_simulate)
  then show ?thesis by (simp add: emit_fields(4) round2_nonneg)
qed

text \<open>
  With the default inputs, the first and the last row.
\<close>

theorem loan_balance_output_nonneg_witness:
  "0 < length (rows (simulate default_inputs))
   \<and> 0 \<le> LoanBalance (rows (simulate default_inputs) ! 0)
   \<and> 239 < length (rows (simulate default_inputs))
   \<and> 0 \<le> LoanBalance (rows (simulate default_inputs) ! 239)"
proof -
  have len: "0 < length (rows (simulate default_inputs))"
    "239 < length (rows (simulate default_inputs))"
    by (simp_all add: default_trace(4))
  from loan_balance_output_nonneg[OF len(1)] loan_balance_output_nonneg[OF len(2)] len
  show ?thesis by blast
qed

text \<open>
  Claim C10. With a non-negative initial balance and a non-negative payment, the loan is
  at least zero after the interest and after the payment of every month; when it is zero
  after the interest it is zero after the payment, and once it is zero after a payment it
  is zero at both points of every later month (and nothing is paid);
  so \<open>max loan 0\<close> is the loan itself and the row's \<open>LoanBalance\<close> is the rounded loan.
\<close>

theorem internal_loan_nonneg:
  fixes inp defines "tr \<equiv> trace (simulate inp)"
  assumes "0 \<le> loan_balance inp" "0 \<le> loan_payment inp" "i < length tr"
  shows "0 \<le> v_loan_accrued (tr ! i) \<and> 0 \<le> v_loan (tr ! i)
    \<and> (v_loan_accrued (tr ! i) = 0 \<longrightarrow> v_loan (tr ! i) = 0)
    \<and> (v_loan (tr ! i) = 0 \<longrightarrow>
         (\<forall>j. i < j \<and> j < length tr \<longrightarrow>
            v_loan_accrued (tr ! j) = 0 \<and> v_loan_payment_actual (tr ! j) = 0
            \<and> v_loan (tr ! j) = 0))
    \<and> max (v_loan (tr ! i)) 0 = v_loan (tr ! i)
    \<and> LoanBalance (rows (simulate inp) ! i) = round2 (v_loan (tr ! i))"
proof -
  have len: "length tr = nat (months inp)" by (simp add: tr_def length_trace_simulate)
  have tr: "tr ! j = vars_at inp (int j + 1)" if "j < length tr" for j
    using that by (simp add: tr_def length_trace_simulate nth_trace_simulate)
  have row: "rows (simulate inp) ! i = emit (tr ! i)"
    using assms(4) by (simp add: len tr nth_rows_simulate)
  have 1: "0 \<le> v_loan_accrued (tr ! i)"
    unfolding tr[OF assms(4)] by (rule accrued_nonneg) (rule loan_run_nonneg[OF assms(2)])
  have 2: "0 \<le> v_loan (tr ! i)"
    unfolding tr[OF assms(4)] by (rule loan_vars_at_nonneg)
  have 3: "v_loan_accrued (tr ! j) = 0 \<and> v_loan_payment_actual (tr ! j) = 0 \<and> v_loan (tr ! j) = 0"
    if "v_loan (tr ! i) = 0" "i < j \<and> j < length tr" for j
  proof -
    from that(1) have "v_loan (vars_at inp (int i + 1)) = 0" by (simp add: tr[OF assms(4)])
    from zero_after[OF assms(3) _ this, of "int j + 1"] that(2) show ?thesis
      by (simp add: tr)
  qed
  have 4: "max (v_loan (tr ! i)) 0 = v_loan (tr ! i)" using 2 by simp
  have 5: "LoanBalance (rows (simulate inp) ! i) = round2 (v_loan (tr ! i))"
    by (simp add: row emit_fields(4) 4)
  have 6: "v_loan (tr ! i) = 0" if "v_loan_accrued (tr ! i) = 0"
    using that assms(3) unfolding tr[OF assms(4)]
    by (simp add: vars_at_loan_fields(2,3))
  from 1 2 3 4 5 6 show ?thesis by blast
qed

text \<open>
  With the default inputs the loan is zero after the payment of month 44, and month 45
  finds it zero, pays nothing and leaves it zero.
\<close>

theorem internal_loan_nonneg_witness:
  "0 \<le> loan_balance default_inputs \<and> 0 \<le> loan_payment default_inputs
   \<and> 43 < length (trace (simulate default_inputs))
   \<and> 0 \<le> v_loan_accrued (trace (simulate default_inputs) ! 43)
   \<and> v_loan (trace (simulate default_inputs) ! 43) = 0
   \<and> v_loan_accrued (trace (simulate default_inputs) ! 44) = 0
   \<and> v_loan_payment_actual (trace (simulate default_inputs) ! 44) = 0
   \<and> v_loan (trace (simulate default_inputs) ! 44) = 0
   \<and> LoanBalance (rows (simulate default_inputs) ! 43)
       = round2 (v_loan (trace (simulate default_inputs) ! 43))"
proof -
  have h: "0 \<le> loan_balance default_inputs" "0 \<le> loan_payment default_inputs"
    "43 < length (trace (simulate default_inputs))"
    by (simp_all add: default_fields(1,2) default_trace(3))
  note nn = internal_loan_nonneg[OF h]
  from nn have 1: "0 \<le> v_loan_accrued (trace (simulate default_inputs) ! 43)" by blast
  from nn have 2: "LoanBalance (rows (simulate default_inputs) ! 43)
       = round2 (v_loan (trace (simulate default_inputs) ! 43))" by blast
  from nn have "v_loan (trace (simulate default_inputs) ! 43) = 0 \<longrightarrow>
         (\<forall>j. 43 < j \<and> j < length (trace (simulate default_inputs)) \<longrightarrow>
            v_loan_accrued (trace (simulate default_inputs) ! j) = 0
            \<and> v_loan_payment_actual (trace (simulate default_inputs) ! j) = 0
            \<and> v_loan (trace (simulate default_inputs) ! j) = 0)" by blast
  with default_at_payoff have "\<forall>j. 43 < j \<and> j < length (trace (simulate default_inputs)) \<longrightarrow>
            v_loan_accrued (trace (simulate default_inputs) ! j) = 0
            \<and> v_loan_payment_actual (trace (simulate default_inputs) ! j) = 0
            \<and> v_loan (trace (simulate default_inputs) ! j) = 0" by blast
  from this[THEN spec, of 44] have 3: "v_loan_accrued (trace (simulate default_inputs) ! 44) = 0
   \<and> v_loan_payment_actual (trace (simulate default_inputs) ! 44) = 0
   \<and> v_loan (trace (simulate default_inputs) ! 44) = 0"
    by (simp add: default_trace(3))
  from h 1 2 3 default_at_payoff show ?thesis by blast
qed

text \<open>
  Claim C9. With a loan of 20000, a payment of 500 and the monthly rate \<open>0.05/12\<close> (income
  and savings rate play no part in the loan), over a horizon of at least 5 years, the
  least the years slider allows: the loan after payment is positive and strictly below
  the previous month's in months 1 to 43, falls to exactly zero in month 44 and is zero in every later month; the rows'
  \<open>LoanBalance\<close> strictly decreases up to month 44 and is zero from then on; and the payoff
  month recorded is 44, the first month whose balance after interest minus the payment is
  at most zero.
\<close>

theorem scenario_20000_at_500:
  fixes inp defines "tr \<equiv> trace (simulate inp)" and "rs \<equiv> rows (simulate inp)"
  assumes "loan_balance inp = 20000" "loan_payment inp = 500" "5 \<le> years inp"
  shows "loan_paid_off_month (simulate inp) = Some 44
    \<and> (\<forall>i<43. 0 < v_loan (tr ! i)
          \<and> v_loan (tr ! i) < (if i = 0 then 20000 else v_loan (tr ! (i - 1)))
          \<and> 0 < v_loan_accrued (tr ! i) - 500)
    \<and> v_loan_accrued (tr ! 43) - 500 \<le> 0
    \<and> v_loan (tr ! 43) < v_loan (tr ! 42)
    \<and> (\<forall>i. 43 \<le> i \<and> i < length tr \<longrightarrow> v_loan (tr ! i) = 0)
    \<and> (\<forall>i<43. LoanBalance (rs ! (i + 1)) < LoanBalance (rs ! i))
    \<and> (\<forall>i. 43 \<le> i \<and> i < length rs \<longrightarrow> LoanBalance (rs ! i) = 0)"
proof -
  note lb = assms(3) and lp = assms(4)
  from assms(5) have horizon: "60 \<le> months inp" by (simp add: months_def)
  have tr: "tr ! i = vars_at inp (int i + 1)" if "i < nat (months inp)" for i
    using that by (simp add: tr_def nth_trace_simulate)
  have rs: "rs ! i = emit (vars_at inp (int i + 1))" if "i < nat (months inp)" for i
    using that by (simp add: rs_def nth_rows_simulate)
  have early: "i < nat (months inp)" if "i \<le> 43" for i
    using that horizon by linarith
  have balance: "LoanBalance (rs ! i) = round2 (v_loan (vars_at inp (int i + 1)))"
    if "i < nat (months inp)" for i
    using loan_vars_at_nonneg[of inp "int i + 1"] by (simp add: rs[OF that] emit_fields(4))
  have zero: "v_loan (vars_at inp k) = 0" if "44 \<le> k" for k
    using scenario_payoff_step(2)[OF lb lp] that
    by (intro zero_stays[of inp 44 k]) (simp_all add: lp)
  have 1: "loan_paid_off_month (simulate inp) = Some 44"
    unfolding simulate_def using horizon by (intro scenario_paid_off[OF lb lp]) simp
  have 2: "0 < v_loan (tr ! i)
          \<and> v_loan (tr ! i) < (if i = 0 then 20000 else v_loan (tr ! (i - 1)))
          \<and> 0 < v_loan_accrued (tr ! i) - 500" if "i < 43" for i
  proof -
    from that have k: "1 \<le> int i + 1" "int i + 1 \<le> 43" "int i + 1 \<le> 44" by simp_all
    have prev: "tr ! (i - 1) = vars_at inp (int i)" if "i \<noteq> 0"
      using tr[of "i - 1"] early[of "i - 1"] \<open>i < 43\<close> that by (simp add: of_nat_diff)
    from scenario_before_payoff(2)[OF lb lp k(1,2)] have "0 < v_loan (vars_at inp (int i + 1))"
      by simp
    moreover from scenario_step_down[OF lb lp k(1,3)] prev
    have "v_loan (vars_at inp (int i + 1)) < (if i = 0 then 20000 else v_loan (tr ! (i - 1)))"
      by (auto split: if_splits)
    moreover from scenario_before_payoff(4)[OF lb lp k(1,2)]
    have "0 < v_loan_accrued (vars_at inp (int i + 1)) - 500" by simp
    ultimately show ?thesis using tr[of i] early[of i] that by simp
  qed
  have t43: "tr ! 43 = vars_at inp 44" and t42: "tr ! 42 = vars_at inp 43"
    using tr[of 43] tr[of 42] early[of 43] early[of 42] by simp_all
  have 3: "v_loan_accrued (tr ! 43) - 500 \<le> 0"
    using scenario_payoff_step(1)[OF lb lp] by (simp add: t43)
  have 4: "v_loan (tr ! 43) < v_loan (tr ! 42)"
    using scenario_step_down[OF lb lp, of 44] by (simp add: t43 t42)
  have 5: "v_loan (tr ! i) = 0" if "43 \<le> i \<and> i < length tr" for i
  proof -
    from that have "i < nat (months inp)" by (simp add: tr_def length_trace_simulate)
    from tr[OF this] zero[of "int i + 1"] that show ?thesis by simp
  qed
  have 6: "LoanBalance (rs ! (i + 1)) < LoanBalance (rs ! i)" if "i < 43" for i
  proof -
    from that have k: "1 \<le> int i + 2" "int i + 2 \<le> 44" by simp_all
    from scenario_step_down[OF lb lp k]
    have "v_loan (vars_at inp (int i + 2)) + 1 \<le> v_loan (vars_at inp (int i + 1))"
      by (simp add: add.commute)
    then have "round2 (v_loan (vars_at inp (int (i + 1) + 1)))
        < round2 (v_loan (vars_at inp (int i + 1)))"
      by (intro round2_less) (simp add: add.commute)
    then show ?thesis
      using balance[of i] balance[of "i + 1"] early[of i] early[of "i + 1"] that by simp
  qed
  have 7: "LoanBalance (rs ! i) = 0" if "43 \<le> i \<and> i < length rs" for i
  proof -
    from that have "i < nat (months inp)" by (simp add: rs_def length_rows_simulate)
    from balance[OF this] zero[of "int i + 1"] that show ?thesis by (simp add: round2_zero)
  qed
  from 1 2 3 4 5 6 7 show ?thesis by blast
qed

text \<open>
  The scenario over 5 years with no income and no saving.
\<close>

theorem scenario_20000_at_500_witness:
  "loan_paid_off_month (simulate no_income_inputs) = Some 44
   \<and> 0 < v_loan (trace (simulate no_income_inputs) ! 0)
   \<and> v_loan (trace (simulate no_income_inputs) ! 0) < 20000
   \<and> v_loan (trace (simulate no_income_inputs) ! 1) < v_loan (trace (simulate no_income_inputs) ! 0)
   \<and> v_loan (trace (simulate no_income_inputs) ! 43) < v_loan (trace (simulate no_income_inputs) ! 42)
   \<and> v_loan (trace (simulate no_income_inputs) ! 43) = 0
   \<and> v_loan (trace (simulate no_income_inputs) ! 59) = 0
   \<and> LoanBalance (rows (simulate no_income_inputs) ! 1)
       < LoanBalance (rows (simulate no_income_inputs) ! 0)
   \<and> LoanBalance (rows (simulate no_income_inputs) ! 59) = 0"
proof -
  have f: "loan_balance no_income_inputs = 20000" "loan_payment no_income_inputs = 500"
    "5 \<le> years no_income_inputs"
    by (simp_all add: no_income_inputs_def)
  have len: "length (trace (simulate no_income_inputs)) = 60"
    "length (rows (simulate no_income_inputs)) = 60"
    by (simp_all add: length_trace_simulate length_rows_simulate months_def no_income_inputs_def)
  note sc = scenario_20000_at_500[OF f]
  from sc have 1: "loan_paid_off_month (simulate no_income_inputs) = Some 44" by blast
  from sc have dec: "\<forall>i<43. 0 < v_loan (trace (simulate no_income_inputs) ! i)
          \<and> v_loan (trace (simulate no_income_inputs) ! i)
              < (if i = 0 then 20000 else v_loan (trace (simulate no_income_inputs) ! (i - 1)))
          \<and> 0 < v_loan_accrued (trace (simulate no_income_inputs) ! i) - 500" by blast
  from dec[THEN spec, of 0] have 2: "0 < v_loan (trace (simulate no_income_inputs) ! 0)
      \<and> v_loan (trace (simulate no_income_inputs) ! 0) < 20000" by simp
  from dec[THEN spec, of 1] have 3: "v_loan (trace (simulate no_income_inputs) ! 1)
      < v_loan (trace (simulate no_income_inputs) ! 0)" by simp
  from sc have 4: "v_loan (trace (simulate no_income_inputs) ! 43)
      < v_loan (trace (simulate no_income_inputs) ! 42)" by blast
  from sc have zero: "\<forall>i. 43 \<le> i \<and> i < length (trace (simulate no_income_inputs))
      \<longrightarrow> v_loan (trace (simulate no_income_inputs) ! i) = 0" by blast
  from zero[THEN spec, of 43] zero[THEN spec, of 59]
  have 5: "v_loan (trace (simulate no_income_inputs) ! 43) = 0
      \<and> v_loan (trace (simulate no_income_inputs) ! 59) = 0" by (simp add: len)
  from sc have out: "\<forall>i<43. LoanBalance (rows (simulate no_income_inputs) ! (i + 1))
      < LoanBalance (rows (simulate no_income_inputs) ! i)" by blast
  from out[THEN spec, of 0] have 6: "LoanBalance (rows (simulate no_income_inputs) ! 1)
       < LoanBalance (rows (simulate no_income_inputs) ! 0)" by simp
  from sc have outz: "\<forall>i. 43 \<le> i \<and> i < length (rows (simulate no_income_inputs))
      \<longrightarrow> LoanBalance (rows (simulate no_income_inputs) ! i) = 0" by blast
  from outz[THEN spec, of 59] have 7: "LoanBalance (rows (simulate no_income_inputs) ! 59) = 0"
    by (simp add: len)
  from 1 2 3 4 5 6 7 show ?thesis by blast
qed

section \<open>The schedule resolver\<close>

text \<open>
  Claim C4. For every list of income periods and every retirement month, the dictionary
  holds the value \<open>v\<close> under month \<open>m\<close> exactly when \<open>m\<close> is at most the retirement month and
  \<open>v\<close> is the monthly income of the last period, in input order, that covers \<open>m\<close>; a month
  after the retirement month is never a key, and a month that no period covers is not a
  key.
\<close>

theorem income_schedule_last_wins:
  "(income_by_month ps rm m = Some v \<longleftrightarrow>
      m \<le> rm \<and> (\<exists>i<length ps. covers (ps ! i) m
         \<and> (\<forall>j. i < j \<and> j < length ps \<longrightarrow> \<not> covers (ps ! j) m)
         \<and> v = monthly_income (ps ! i)))
   \<and> (rm < m \<longrightarrow> m \<notin> dom (income_by_month ps rm))
   \<and> ((\<forall>p\<in>set ps. \<not> covers p m) \<longrightarrow> m \<notin> dom (income_by_month ps rm))"
proof (intro conjI impI)
  show "income_by_month ps rm m = Some v \<longleftrightarrow>
      m \<le> rm \<and> (\<exists>i<length ps. covers (ps ! i) m
         \<and> (\<forall>j. i < j \<and> j < length ps \<longrightarrow> \<not> covers (ps ! j) m)
         \<and> v = monthly_income (ps ! i))"
    by (rule income_by_month_last)
next
  assume "rm < m"
  then show "m \<notin> dom (income_by_month ps rm)"
    by (simp add: domIff income_by_month_None)
next
  assume "\<forall>p\<in>set ps. \<not> covers p m"
  then show "m \<notin> dom (income_by_month ps rm)"
    by (simp add: domIff income_by_month_None)
qed

text \<open>
  The theorem at a schedule of two overlapping periods: the later one gives months 1 and 12
  their income, month 13 lies after a retirement in month 12, and no period covers month 25.
\<close>

theorem income_schedule_last_wins_witness:
  "income_by_month year_one_schedule 12 12 = Some 3000
   \<and> income_by_month year_one_schedule 12 1 = Some 3000
   \<and> 13 \<notin> dom (income_by_month year_one_schedule 12)
   \<and> 25 \<notin> dom (income_by_month year_one_schedule 36)"
proof -
  let ?S = "year_one_schedule"
  have len: "length ?S = 2" by (simp add: year_one_schedule_def)
  have second: "1 < length ?S \<and> covers (?S ! 1) m
       \<and> (\<forall>j. 1 < j \<and> j < length ?S \<longrightarrow> \<not> covers (?S ! j) m)
       \<and> 3000 = monthly_income (?S ! 1)" if "1 \<le> m" "m \<le> 24" for m
    using that len by (auto simp: year_one_schedule_def covers_def)
  have ex: "\<exists>i<length ?S. covers (?S ! i) m
       \<and> (\<forall>j. i < j \<and> j < length ?S \<longrightarrow> \<not> covers (?S ! j) m)
       \<and> 3000 = monthly_income (?S ! i)" if "1 \<le> m" "m \<le> 24" for m
    using second[OF that] by blast
  have none: "\<forall>p\<in>set ?S. \<not> covers p 25"
    by (simp add: year_one_schedule_def covers_def)
  note sched = income_schedule_last_wins[of ?S]
  have "income_by_month ?S 12 12 = Some 3000"
    using sched[of 12 12 3000, THEN conjunct1] ex[of 12] by simp
  moreover have "income_by_month ?S 12 1 = Some 3000"
    using sched[of 12 1 3000, THEN conjunct1] ex[of 1] by simp
  moreover have "13 \<notin> dom (income_by_month ?S 12)"
    using sched[of 12 13, THEN conjunct2, THEN conjunct1] by simp
  moreover have "25 \<notin> dom (income_by_month ?S 36)"
    using sched[of 36 25, THEN conjunct2, THEN conjunct2] none by blast
  ultimately show ?thesis by blast
qed

end
